theory Spec2Isabelle
  imports Complex_Main
begin

section \<open>The Web Audio objects the engine drives\<close>

text \<open>
  The engine of \<^verbatim>\<open>src/App.js\<close> builds a graph of Web Audio nodes. The nodes live in
  the audio context; here they are kept in two stores (oscillators and gain nodes)
  and a JavaScript object reference is the index of the node in its store.
  JavaScript numbers are modelled as real numbers: rounding of IEEE doubles is not
  part of the model, and a real number is always finite, so the TypeError of an
  AudioParam method on a value that is not finite has no place in it.
\<close>

datatype ctx_state = Suspended | Running | Closed

datatype waveform = Sine | Square | Sawtooth | Triangle

text \<open>An automation event of an AudioParam: the target value and the event time.\<close>

datatype event = SetValue (ev_value: real) (ev_time: real)
               | LinearRamp (ev_value: real) (ev_time: real)

record audio_param =
  pvalue :: real
  events :: "event list"

record oscillator =
  otype :: waveform
  frequency :: audio_param
  started :: bool
  stop_time :: "real option"

record gain_node =
  gain :: audio_param

datatype source = OscOut nat | GainOut nat

datatype dest = GainIn nat | OscFrequency nat | Destination

type_synonym connection = "source \<times> dest"

datatype error = TypeError | RangeError | InvalidStateError

datatype completion = Normal | Throw error

subsection \<open>AudioParam automation\<close>

fun same_kind :: "event \<Rightarrow> event \<Rightarrow> bool" where
  "same_kind (SetValue _ _) (SetValue _ _) = True"
| "same_kind (LinearRamp _ _) (LinearRamp _ _) = True"
| "same_kind _ _ = False"

text \<open>
  Events are kept in time order. A new event replaces an event of the same kind at
  the same time, and goes after events of another kind at the same time.
\<close>

fun insert_event :: "event \<Rightarrow> event list \<Rightarrow> event list" where
  "insert_event e [] = [e]"
| "insert_event e (x # xs) =
     (if ev_time x < ev_time e then x # insert_event e xs
      else if ev_time x = ev_time e then
        (if same_kind x e then e # xs else x # insert_event e xs)
      else e # x # xs)"

text \<open>
  The three methods of an AudioParam the engine calls, at the context time \<open>ct\<close>. Each
  raises a RangeError on a negative time, and a time that lies before the context time
  is moved up to the context time.
\<close>

definition cancelScheduledValues :: "real \<Rightarrow> real \<Rightarrow> audio_param \<Rightarrow> error + audio_param" where
  "cancelScheduledValues ct cancelTime p =
     (if cancelTime < 0 then Inl RangeError
      else Inr (p\<lparr>events := filter (\<lambda>e. ev_time e < max cancelTime ct) (events p)\<rparr>))"

definition setValueAtTime :: "real \<Rightarrow> real \<Rightarrow> real \<Rightarrow> audio_param \<Rightarrow> error + audio_param" where
  "setValueAtTime ct v startTime p =
     (if startTime < 0 then Inl RangeError
      else Inr (p\<lparr>events := insert_event (SetValue v (max startTime ct)) (events p)\<rparr>))"

definition linearRampToValueAtTime ::
  "real \<Rightarrow> real \<Rightarrow> real \<Rightarrow> audio_param \<Rightarrow> error + audio_param" where
  "linearRampToValueAtTime ct v endTime p =
     (if endTime < 0 then Inl RangeError
      else Inr (p\<lparr>events := insert_event (LinearRamp v (max endTime ct)) (events p)\<rparr>))"

text \<open>
  The value the rendering path computes at time \<open>t\<close>: \<open>v0\<close> at \<open>t0\<close> is the last
  breakpoint passed so far. A ramp that has not ended yet interpolates linearly from
  that breakpoint to its own target. (Every ramp the engine schedules follows a
  \<^verbatim>\<open>setValueAtTime\<close> at the context time, so a ramp always has a breakpoint before it.)
\<close>

fun timeline :: "real \<Rightarrow> real \<Rightarrow> event list \<Rightarrow> real \<Rightarrow> real" where
  "timeline v0 t0 [] t = v0"
| "timeline v0 t0 (e # es) t =
     (if ev_time e \<le> t then timeline (ev_value e) (ev_time e) es t
      else (case e of
              SetValue _ _ \<Rightarrow> v0
            | LinearRamp v1 t1 \<Rightarrow> v0 + (v1 - v0) * (t - t0) / (t1 - t0)))"

section \<open>Patch data\<close>

record op_params =
  on :: bool
  ratio :: real
  detune :: int
  level :: real
  attack :: real
  decay :: real
  sustain :: real
  release :: real
  waveform :: waveform

record patch =
  algorithm :: int
  patch_masterGain :: real
  operators :: "op_params list"

section \<open>The state of the program\<close>

text \<open>An \<^verbatim>\<open>Operator\<close> object: its oscillator and its envelope gain node.\<close>

record operator =
  osc :: nat
  env :: nat

text \<open>
  The audio context (\<open>state\<close>, \<open>currentTime\<close>, the nodes and their connections, and
  the number of \<^verbatim>\<open>resume()\<close> requests made), the module-level \<^verbatim>\<open>activeNotes\<close> map
  and the fields of the one \<^verbatim>\<open>FMSynth\<close> object (\<open>masterGain\<close>, \<open>patch\<close>).
  A JavaScript \<^verbatim>\<open>Map\<close> is an association list in insertion order.
\<close>

record world =
  state :: ctx_state
  currentTime :: real
  resume_calls :: nat
  oscs :: "oscillator list"
  gains :: "gain_node list"
  conns :: "connection list"
  activeNotes :: "(int \<times> operator list) list"
  masterGain :: nat
  patch :: "patch option"

subsection \<open>The operations of \<^verbatim>\<open>Map\<close> the engine uses\<close>

definition Map_has :: "'k \<Rightarrow> ('k \<times> 'v) list \<Rightarrow> bool" where
  "Map_has k m = (k \<in> set (map fst m))"

definition Map_get :: "'k \<Rightarrow> ('k \<times> 'v) list \<Rightarrow> 'v option" where
  "Map_get k m = map_of m k"

fun Map_set :: "'k \<Rightarrow> 'v \<Rightarrow> ('k \<times> 'v) list \<Rightarrow> ('k \<times> 'v) list" where
  "Map_set k v [] = [(k, v)]"
| "Map_set k v ((k', v') # m) =
     (if k' = k then (k, v) # m else (k', v') # Map_set k v m)"

definition Map_delete :: "'k \<Rightarrow> ('k \<times> 'v) list \<Rightarrow> ('k \<times> 'v) list" where
  "Map_delete k m = filter (\<lambda>kv. fst kv \<noteq> k) m"

subsection \<open>Node creation and update\<close>

definition createOscillator :: "world \<Rightarrow> nat \<times> world" where
  "createOscillator w =
     (length (oscs w),
      w\<lparr>oscs := oscs w @
           [\<lparr>otype = Sine, frequency = \<lparr>pvalue = 440, events = []\<rparr>,
             started = False, stop_time = None\<rparr>]\<rparr>)"

definition createGain :: "world \<Rightarrow> nat \<times> world" where
  "createGain w =
     (length (gains w),
      w\<lparr>gains := gains w @ [\<lparr>gain = \<lparr>pvalue = 1, events = []\<rparr>\<rparr>]\<rparr>)"

definition connect :: "source \<Rightarrow> dest \<Rightarrow> world \<Rightarrow> world" where
  "connect s d w = w\<lparr>conns := conns w @ [(s, d)]\<rparr>"

definition upd_gain :: "nat \<Rightarrow> (audio_param \<Rightarrow> audio_param) \<Rightarrow> world \<Rightarrow> world" where
  "upd_gain g f w = w\<lparr>gains := (gains w)[g := (gains w ! g)\<lparr>gain := f (gain (gains w ! g))\<rparr>]\<rparr>"

definition upd_osc :: "nat \<Rightarrow> (oscillator \<Rightarrow> oscillator) \<Rightarrow> world \<Rightarrow> world" where
  "upd_osc i f w = w\<lparr>oscs := (oscs w)[i := f (oscs w ! i)]\<rparr>"

definition set_value :: "real \<Rightarrow> audio_param \<Rightarrow> audio_param" where
  "set_value v p = p\<lparr>pvalue := v\<rparr>"

text \<open>\<^verbatim>\<open>osc.stop(when)\<close> raises on a negative time and on an oscillator never started.\<close>

definition osc_stop :: "real \<Rightarrow> oscillator \<Rightarrow> error + oscillator" where
  "osc_stop when' os =
     (if when' < 0 then Inl RangeError
      else if \<not> started os then Inl InvalidStateError
      else Inr (os\<lparr>stop_time := Some when'\<rparr>))"

text \<open>
  A call of a method of the gain parameter of gain node \<open>g\<close>, or of the frequency
  parameter of oscillator \<open>i\<close>, at the current context time: the exception of the method
  is the exception of the call, and leaves the state as it is.
\<close>

definition gain_call ::
  "nat \<Rightarrow> (real \<Rightarrow> audio_param \<Rightarrow> error + audio_param) \<Rightarrow> world \<Rightarrow> completion \<times> world" where
  "gain_call g method w =
     (case method (currentTime w) (gain (gains w ! g)) of
        Inl e \<Rightarrow> (Throw e, w)
      | Inr p \<Rightarrow> (Normal, upd_gain g (\<lambda>_. p) w))"

definition frequency_call ::
  "nat \<Rightarrow> (real \<Rightarrow> audio_param \<Rightarrow> error + audio_param) \<Rightarrow> world \<Rightarrow> completion \<times> world" where
  "frequency_call i method w =
     (case method (currentTime w) (frequency (oscs w ! i)) of
        Inl e \<Rightarrow> (Throw e, w)
      | Inr p \<Rightarrow> (Normal, upd_osc i (\<lambda>os. os\<lparr>frequency := p\<rparr>) w))"

text \<open>One statement after another: an exception of the first ends the sequence.\<close>

definition andThen ::
  "completion \<times> world \<Rightarrow> (world \<Rightarrow> completion \<times> world) \<Rightarrow> completion \<times> world" where
  "andThen r f = (case r of (Throw e, w) \<Rightarrow> (Throw e, w) | (Normal, w) \<Rightarrow> f w)"

text \<open>
  The rendering path. A running context renders one quantum after another; \<open>q\<close> is
  the duration of a quantum (128 frames at the sample rate of the context). Rendering a
  quantum stores in the value of every parameter what its timeline gives at the start
  of that quantum, and moves the context time on to the end of the quantum. So the
  value a script reads is the one of the start of the last quantum rendered.
\<close>

definition render_param :: "real \<Rightarrow> audio_param \<Rightarrow> audio_param" where
  "render_param t p = p\<lparr>pvalue := timeline (pvalue p) t (events p) t\<rparr>"

definition render_quantum :: "real \<Rightarrow> world \<Rightarrow> world" where
  "render_quantum q w =
     (if state w = Running
      then w\<lparr>currentTime := currentTime w + q,
             gains := map (\<lambda>g. g\<lparr>gain := render_param (currentTime w) (gain g)\<rparr>) (gains w),
             oscs := map (\<lambda>os. os\<lparr>frequency := render_param (currentTime w) (frequency os)\<rparr>)
                       (oscs w)\<rparr>
      else w)"

fun render_quanta :: "nat \<Rightarrow> real \<Rightarrow> world \<Rightarrow> world" where
  "render_quanta 0 q w = w"
| "render_quanta (Suc k) q w = render_quantum q (render_quanta k q w)"

text \<open>A resume request that was filed takes effect: the suspended context runs.\<close>

definition context_resumed :: "world \<Rightarrow> world" where
  "context_resumed w =
     (if state w = Suspended \<and> 0 < resume_calls w then w\<lparr>state := Running\<rparr> else w)"

section \<open>class Operator\<close>

definition new_Operator :: "world \<Rightarrow> operator \<times> world" where
  "new_Operator w0 =
     (let (o', w1) = createOscillator w0;
          (e, w2) = createGain w1;
          w3 = upd_gain e (set_value 0) w2;
          w4 = connect (OscOut o') (GainIn e) w3;
          w5 = upd_osc o' (\<lambda>os. os\<lparr>started := True\<rparr>) w4
      in (\<lparr>osc = o', env = e\<rparr>, w5))"

text \<open>\<^verbatim>\<open>this.output = this.env\<close>: the output of an operator is its envelope node.\<close>

definition op_output :: "operator \<Rightarrow> source" where
  "op_output op = GainOut (env op)"

text \<open>\<^verbatim>\<open>time || this.context.currentTime\<close>: an absent or zero \<open>time\<close> gives the context time.\<close>

definition scheduleEnvelope ::
  "op_params \<Rightarrow> real option \<Rightarrow> operator \<Rightarrow> world \<Rightarrow> completion \<times> world" where
  "scheduleEnvelope params time op w0 =
     (let now = (case time of None \<Rightarrow> currentTime w0
                  | Some t \<Rightarrow> if t \<noteq> 0 then t else currentTime w0)
      in andThen (gain_call (env op) (\<lambda>ct. cancelScheduledValues ct now) w0)
           (\<lambda>w1. andThen
              (gain_call (env op)
                 (\<lambda>ct. setValueAtTime ct (pvalue (gain (gains w1 ! env op))) now) w1)
           (\<lambda>w2. andThen
              (gain_call (env op) (\<lambda>ct. linearRampToValueAtTime ct 1 (now + attack params)) w2)
           (\<lambda>w3.
              gain_call (env op)
                (\<lambda>ct. linearRampToValueAtTime ct (sustain params)
                        (now + attack params + decay params)) w3))))"

text \<open>
  The three calls on the gain parameter stand outside the \<^verbatim>\<open>try\<close>: their exception
  is the exception of \<^verbatim>\<open>triggerRelease\<close>. Only \<^verbatim>\<open>osc.stop\<close> is guarded.
\<close>

definition triggerRelease :: "op_params \<Rightarrow> operator \<Rightarrow> world \<Rightarrow> completion \<times> world" where
  "triggerRelease params op w0 =
     (let now = currentTime w0
      in andThen (gain_call (env op) (\<lambda>ct. cancelScheduledValues ct now) w0)
           (\<lambda>w1. andThen
              (gain_call (env op)
                 (\<lambda>ct. setValueAtTime ct (pvalue (gain (gains w1 ! env op))) now) w1)
           (\<lambda>w2. andThen
              (gain_call (env op) (\<lambda>ct. linearRampToValueAtTime ct 0 (now + release params)) w2)
           (\<lambda>w3.
              (Normal,
               case osc_stop (now + release params + 0.5) (oscs w3 ! osc op) of
                 Inl _ \<Rightarrow> w3
               | Inr os \<Rightarrow> w3\<lparr>oscs := (oscs w3)[osc op := os]\<rparr>)))))"

section \<open>class FMSynth\<close>

definition new_FMSynth :: "world \<Rightarrow> world" where
  "new_FMSynth w0 =
     (let (m, w1) = createGain w0;
          w2 = upd_gain m (set_value 0.5) w1;
          w3 = connect (GainOut m) Destination w2
      in w3\<lparr>masterGain := m, patch := None\<rparr>)"

definition setPatch :: "patch \<Rightarrow> world \<Rightarrow> world" where
  "setPatch p w = w\<lparr>patch := Some p\<rparr>"

text \<open>\<^verbatim>\<open>context.resume()\<close> only files the request; the context changes state later.\<close>

definition resume :: "world \<Rightarrow> world" where
  "resume w = w\<lparr>resume_calls := resume_calls w + 1\<rparr>"

definition baseFreq :: "int \<Rightarrow> real" where
  "baseFreq note = 440 * 2 powr ((real_of_int note - 69) / 12)"

text \<open>\<^verbatim>\<open>Array(4).fill(null).map(() => new Operator(this.context))\<close>\<close>

fun new_Operators :: "nat \<Rightarrow> world \<Rightarrow> operator list \<times> world" where
  "new_Operators 0 w = ([], w)"
| "new_Operators (Suc k) w =
     (let (op, w1) = new_Operator w;
          (ops, w2) = new_Operators k w1
      in (op # ops, w2))"

text \<open>
  Reading \<^verbatim>\<open>xs[i]\<close> from a JavaScript array: \<^verbatim>\<open>undefined\<close> (here \<open>None\<close>) beyond
  its end.
\<close>

definition array_get :: "'a list \<Rightarrow> nat \<Rightarrow> 'a option" where
  "array_get xs i = (if i < length xs then Some (xs ! i) else None)"

text \<open>
  \<^verbatim>\<open>xs.forEach((x, i) => ...)\<close>, from index \<open>i\<close> on: an exception raised by the
  callback ends the loop, and what the earlier calls did stays done.
\<close>

fun forEach ::
  "('a \<Rightarrow> nat \<Rightarrow> world \<Rightarrow> completion \<times> world) \<Rightarrow> nat \<Rightarrow> 'a list \<Rightarrow> world
     \<Rightarrow> completion \<times> world" where
  "forEach f i [] w = (Normal, w)"
| "forEach f i (x # xs) w =
     (case f x i w of
        (Throw e, w') \<Rightarrow> (Throw e, w')
      | (Normal, w') \<Rightarrow> forEach f (i + 1) xs w')"

text \<open>
  The callback of the first \<^verbatim>\<open>forEach\<close> of \<^verbatim>\<open>noteOn\<close>. Reading \<^verbatim>\<open>params.on\<close>
  raises when \<^verbatim>\<open>opParams[i]\<close> is \<^verbatim>\<open>undefined\<close>.
\<close>

definition start_operator ::
  "real \<Rightarrow> op_params list \<Rightarrow> operator \<Rightarrow> nat \<Rightarrow> world \<Rightarrow> completion \<times> world" where
  "start_operator baseFreq' opParams op i w =
     (case array_get opParams i of
        None \<Rightarrow> (Throw TypeError, w)
      | Some params \<Rightarrow>
          if \<not> on params then (Normal, w)
          else
            let freq = baseFreq' * ratio params * (1 + real_of_int (detune params) / 1000);
                w1 = upd_osc (osc op) (\<lambda>os. os\<lparr>otype := waveform params\<rparr>) w
            in andThen
                 (frequency_call (osc op) (\<lambda>ct. setValueAtTime ct freq (currentTime w1)) w1)
                 (\<lambda>w2. scheduleEnvelope params None op w2))"

text \<open>\<^verbatim>\<open>opParams[i]?.on\<close>: false when the entry is missing.\<close>

definition param_on :: "op_params list \<Rightarrow> nat \<Rightarrow> bool" where
  "param_on opParams i = (i < length opParams \<and> on (opParams ! i))"

definition connectModulator ::
  "op_params list \<Rightarrow> operator list \<Rightarrow> nat \<Rightarrow> nat \<Rightarrow> world \<Rightarrow> world" where
  "connectModulator opParams noteOperators modIndex carIndex w0 =
     (if \<not> param_on opParams modIndex \<or> \<not> param_on opParams carIndex then w0
      else
        let modulator = noteOperators ! modIndex;
            carrier = noteOperators ! carIndex;
            modP = opParams ! modIndex;
            (modGain, w1) = createGain w0;
            w2 = upd_gain modGain (set_value (level modP * 5000)) w1;
            w3 = connect (op_output modulator) (GainIn modGain) w2
        in connect (GainOut modGain) (OscFrequency (osc carrier)) w3)"

definition connectCarrier ::
  "op_params list \<Rightarrow> operator list \<Rightarrow> nat \<Rightarrow> world \<Rightarrow> world" where
  "connectCarrier opParams noteOperators carIndex w0 =
     (if \<not> param_on opParams carIndex then w0
      else
        let carrier = noteOperators ! carIndex;
            carP = opParams ! carIndex;
            (carGain, w1) = createGain w0;
            w2 = upd_gain carGain (set_value (level carP)) w1;
            w3 = connect (op_output carrier) (GainIn carGain) w2
        in connect (GainOut carGain) (GainIn (masterGain w3)) w3)"

text \<open>The \<^verbatim>\<open>switch (algorithm)\<close> of \<^verbatim>\<open>noteOn\<close>.\<close>

definition route :: "int \<Rightarrow> op_params list \<Rightarrow> operator list \<Rightarrow> world \<Rightarrow> world" where
  "route alg opParams noteOperators w =
     (let cm = connectModulator opParams noteOperators;
          cc = connectCarrier opParams noteOperators
      in if alg = 1 then cc 3 (cm 2 3 (cm 1 2 (cm 0 1 w)))
         else if alg = 2 then cc 3 (cm 2 3 (cc 1 (cm 0 1 w)))
         else if alg = 3 then cc 3 (cm 2 3 (cm 1 2 (cm 0 2 w)))
         else if alg = 4 then cc 3 (cm 2 3 (cm 1 3 (cm 0 3 w)))
         else if alg = 5 then cc 3 (cc 2 (cc 1 (cm 0 1 w)))
         else cc 3 (cc 2 (cc 1 (cc 0 w))))"

definition noteOn :: "int \<Rightarrow> world \<Rightarrow> completion \<times> world" where
  "noteOn note w0 =
     (let w1 = (if patch w0 = None \<or> state w0 = Suspended then resume w0 else w0)
      in if Map_has note (activeNotes w1) then (Normal, w1)
         else
           let (noteOperators, w2) = new_Operators 4 w1
           in (case patch w2 of
                 None \<Rightarrow> (Throw TypeError, w2)
               | Some p \<Rightarrow>
                   (case forEach (start_operator (baseFreq note) (operators p)) 0
                           noteOperators w2 of
                      (Throw e, w3) \<Rightarrow> (Throw e, w3)
                    | (Normal, w3) \<Rightarrow>
                        let w4 = route (algorithm p) (operators p) noteOperators w3
                        in (Normal,
                            w4\<lparr>activeNotes := Map_set note noteOperators (activeNotes w4)\<rparr>))))"

text \<open>
  The callback of the \<^verbatim>\<open>forEach\<close> of \<^verbatim>\<open>noteOff\<close>: it reads
  \<^verbatim>\<open>this.patch.operators[i]\<close>, the patch the synth holds when \<^verbatim>\<open>noteOff\<close> runs.
\<close>

definition release_operator :: "operator \<Rightarrow> nat \<Rightarrow> world \<Rightarrow> completion \<times> world" where
  "release_operator op i w =
     (case patch w of
        None \<Rightarrow> (Throw TypeError, w)
      | Some p \<Rightarrow>
          (case array_get (operators p) i of
             None \<Rightarrow> (Throw TypeError, w)
           | Some params \<Rightarrow>
               if on params then triggerRelease params op w else (Normal, w)))"

definition noteOff :: "int \<Rightarrow> world \<Rightarrow> completion \<times> world" where
  "noteOff note w0 =
     (case Map_get note (activeNotes w0) of
        None \<Rightarrow> (Normal, w0)
      | Some noteOperators \<Rightarrow>
          (case forEach release_operator 0 noteOperators w0 of
             (Throw e, w1) \<Rightarrow> (Throw e, w1)
           | (Normal, w1) \<Rightarrow>
               (Normal, w1\<lparr>activeNotes := Map_delete note (activeNotes w1)\<rparr>)))"

section \<open>The application around the engine\<close>

definition initialPatch :: patch where
  "initialPatch =
     \<lparr>algorithm = 1, patch_masterGain = 0.5,
      operators =
        [\<lparr>on = True, ratio = 1.00, detune = 0, level = 0.8, attack = 0.01, decay = 0.3,
          sustain = 0.8, release = 0.5, waveform = Sine\<rparr>,
         \<lparr>on = True, ratio = 1.00, detune = 0, level = 0.5, attack = 0.01, decay = 0.3,
          sustain = 0.8, release = 0.5, waveform = Sine\<rparr>,
         \<lparr>on = False, ratio = 5.00, detune = 0, level = 0.4, attack = 0.01, decay = 0.3,
          sustain = 0.8, release = 0.5, waveform = Sine\<rparr>,
         \<lparr>on = True, ratio = 1.00, detune = 0, level = 0.99, attack = 0.01, decay = 0.3,
          sustain = 0.8, release = 0.5, waveform = Sine\<rparr>]\<rparr>"

text \<open>A new audio context: no nodes yet, and suspended until the page resumes it.\<close>

definition new_AudioContext :: world where
  "new_AudioContext =
     \<lparr>state = Suspended, currentTime = 0, resume_calls = 0, oscs = [], gains = [],
      conns = [], activeNotes = [], masterGain = 0, patch = None\<rparr>"

text \<open>\<^verbatim>\<open>initAudio\<close>: the context, the synth, and the first \<^verbatim>\<open>setPatch\<close>.\<close>

definition initAudio :: world where
  "initAudio = setPatch initialPatch (new_FMSynth new_AudioContext)"


text \<open>
  The calls the page makes into the engine. An exception raised by a call ends that
  call only: the page goes on with the state the call left behind.
\<close>

datatype call = NoteOn int | NoteOff int | SetPatch patch

fun step :: "call \<Rightarrow> world \<Rightarrow> world" where
  "step (NoteOn n) w = snd (noteOn n w)"
| "step (NoteOff n) w = snd (noteOff n w)"
| "step (SetPatch p) w = setPatch p w"

fun run :: "call list \<Rightarrow> world \<Rightarrow> world" where
  "run [] w = w"
| "run (c # cs) w = run cs (step c w)"

subsection \<open>Patch import\<close>

text \<open>
  A value as \<^verbatim>\<open>JSON.parse\<close> returns it. The properties of an object are an
  association list with one entry for each key.
\<close>

datatype json = JNull | JBool bool | JNumber real | JString string
              | JArray "json list" | JObject "(string \<times> json) list"

text \<open>
  Reading the property \<open>k\<close> of a value, for the names \<^verbatim>\<open>handleImport\<close> reads
  (\<^verbatim>\<open>algorithm\<close>, \<^verbatim>\<open>operators\<close>, \<^verbatim>\<open>length\<close>): \<open>None\<close> is \<^verbatim>\<open>undefined\<close>, and reading
  a property of \<^verbatim>\<open>null\<close> raises. A string is the list of its code units, which is
  what \<^verbatim>\<open>length\<close> counts.
\<close>

fun get_prop :: "json \<Rightarrow> string \<Rightarrow> error + json option" where
  "get_prop JNull k = Inl TypeError"
| "get_prop (JObject kvs) k = Inr (map_of kvs k)"
| "get_prop (JArray xs) k =
     Inr (if k = ''length'' then Some (JNumber (real (length xs))) else None)"
| "get_prop (JString s) k =
     Inr (if k = ''length'' then Some (JNumber (real (length s))) else None)"
| "get_prop (JBool _) k = Inr None"
| "get_prop (JNumber _) k = Inr None"

fun truthy :: "json option \<Rightarrow> bool" where
  "truthy None = False"
| "truthy (Some JNull) = False"
| "truthy (Some (JBool b)) = b"
| "truthy (Some (JNumber x)) = (x \<noteq> 0)"
| "truthy (Some (JString s)) = (s \<noteq> [])"
| "truthy (Some (JArray _)) = True"
| "truthy (Some (JObject _)) = True"

text \<open>
  The condition of \<^verbatim>\<open>handleImport\<close>, with its short-circuit evaluation:
  \<^verbatim>\<open>importedPatch.algorithm && importedPatch.operators && importedPatch.operators.length === 4\<close>
\<close>

definition import_check :: "json \<Rightarrow> error + bool" where
  "import_check importedPatch =
     (case get_prop importedPatch ''algorithm'' of
        Inl e \<Rightarrow> Inl e
      | Inr a \<Rightarrow>
          if \<not> truthy a then Inr False
          else (case get_prop importedPatch ''operators'' of
                  Inl e \<Rightarrow> Inl e
                | Inr None \<Rightarrow> Inr False
                | Inr (Some ops) \<Rightarrow>
                    if \<not> truthy (Some ops) then Inr False
                    else (case get_prop ops ''length'' of
                            Inl e \<Rightarrow> Inl e
                          | Inr l \<Rightarrow> Inr (l = Some (JNumber 4)))))"

text \<open>
  The two messages of \<^verbatim>\<open>handleImport\<close>: the file is not a patch (the \<^verbatim>\<open>else\<close>
  branch), and the file could not be read (the \<^verbatim>\<open>catch\<close> branch).
\<close>

datatype alert = InvalidFormat | LoadError

text \<open>The state of the \<^verbatim>\<open>App\<close> component that import touches, and the alerts shown.\<close>

record app =
  patch_state :: json
  alerts :: "alert list"

text \<open>
  \<^verbatim>\<open>reader.onload\<close>, given \<^verbatim>\<open>JSON.parse\<close> (\<open>None\<close> when it raises a SyntaxError) and
  the text of the file.
\<close>

definition onload :: "(string \<Rightarrow> json option) \<Rightarrow> string \<Rightarrow> app \<Rightarrow> app" where
  "onload JSON_parse result st =
     (case JSON_parse result of
        None \<Rightarrow> st\<lparr>alerts := alerts st @ [LoadError]\<rparr>
      | Some importedPatch \<Rightarrow>
          (case import_check importedPatch of
             Inl _ \<Rightarrow> st\<lparr>alerts := alerts st @ [LoadError]\<rparr>
           | Inr True \<Rightarrow> st\<lparr>patch_state := importedPatch\<rparr>
           | Inr False \<Rightarrow> st\<lparr>alerts := alerts st @ [InvalidFormat]\<rparr>))"

text \<open>\<^verbatim>\<open>handleImport\<close>: nothing happens when no file was chosen.\<close>

definition handleImport :: "(string \<Rightarrow> json option) \<Rightarrow> string option \<Rightarrow> app \<Rightarrow> app" where
  "handleImport JSON_parse file st =
     (case file of None \<Rightarrow> st | Some result \<Rightarrow> onload JSON_parse result st)"

section \<open>The topology table of the specification\<close>








section \<open>Auxiliary definitions\<close>

text \<open>The first statement of \<^verbatim>\<open>noteOn\<close>: the conditional request to resume the context.\<close>

definition on_resume :: "world \<Rightarrow> world" where
  "on_resume w = (if patch w = None \<or> state w = Suspended then resume w else w)"



text \<open>
  What \<^verbatim>\<open>scheduleEnvelope\<close> and \<^verbatim>\<open>triggerRelease\<close> make of the gain parameter of the
  envelope at the context time \<open>now\<close>, when none of their calls raises.
\<close>

definition envelope_param :: "op_params \<Rightarrow> real \<Rightarrow> audio_param \<Rightarrow> audio_param" where
  "envelope_param params now g =
     g\<lparr>events :=
         insert_event
           (LinearRamp (sustain params) (max (now + attack params + decay params) now))
           (insert_event (LinearRamp 1 (max (now + attack params) now))
              (insert_event (SetValue (pvalue g) now)
                 (filter (\<lambda>e. ev_time e < now) (events g))))\<rparr>"

definition release_param :: "op_params \<Rightarrow> real \<Rightarrow> audio_param \<Rightarrow> audio_param" where
  "release_param params now g =
     g\<lparr>events :=
         insert_event (LinearRamp 0 (max (now + release params) now))
           (insert_event (SetValue (pvalue g) now)
              (filter (\<lambda>e. ev_time e < now) (events g)))\<rparr>"

text \<open>
  The times at which no call of \<^verbatim>\<open>scheduleEnvelope\<close>, and no call of
  \<^verbatim>\<open>triggerRelease\<close>, gets a negative time.
\<close>

definition envelope_times_ok :: "real \<Rightarrow> op_params \<Rightarrow> bool" where
  "envelope_times_ok now params =
     (0 \<le> now \<and> 0 \<le> now + attack params \<and> 0 \<le> now + attack params + decay params)"

definition release_time_ok :: "real \<Rightarrow> op_params \<Rightarrow> bool" where
  "release_time_ok now params = (0 \<le> now \<and> 0 \<le> now + release params)"

text \<open>
  A patch that \<^verbatim>\<open>noteOn\<close> can start at the context time of \<open>w\<close>, and one that
  \<^verbatim>\<open>noteOff\<close> can release: four operators at least, and the times of every enabled
  one of the first four are in order. Every patch of the data model of the
  specification (attack, decay and release above 0) is one at any context time from 0
  on.
\<close>

definition startable :: "world \<Rightarrow> patch \<Rightarrow> bool" where
  "startable w p =
     (4 \<le> length (operators p) \<and>
      list_all (\<lambda>params. on params \<longrightarrow> envelope_times_ok (currentTime w) params)
        (take 4 (operators p)))"

definition releasable :: "world \<Rightarrow> patch \<Rightarrow> bool" where
  "releasable w p =
     (4 \<le> length (operators p) \<and>
      list_all (\<lambda>params. on params \<longrightarrow> release_time_ok (currentTime w) params)
        (take 4 (operators p)))"

text \<open>What the callback of \<^verbatim>\<open>noteOn\<close> makes of the oscillator of operator \<open>i\<close>.\<close>

definition start_osc :: "real \<Rightarrow> op_params list \<Rightarrow> nat \<Rightarrow> world \<Rightarrow> oscillator \<Rightarrow> oscillator" where
  "start_osc b ps i w os =
     (if param_on ps i
      then os\<lparr>otype := waveform (ps ! i),
              frequency := (frequency os)
                \<lparr>events := insert_event
                   (SetValue (b * ratio (ps ! i) * (1 + real_of_int (detune (ps ! i)) / 1000))
                      (currentTime w))
                   (events (frequency os))\<rparr>\<rparr>
      else os)"

definition start_env :: "op_params list \<Rightarrow> nat \<Rightarrow> world \<Rightarrow> gain_node \<Rightarrow> gain_node" where
  "start_env ps i w g =
     (if param_on ps i then g\<lparr>gain := envelope_param (ps ! i) (currentTime w) (gain g)\<rparr> else g)"




section \<open>Properties of the model\<close>

subsection \<open>What each operation leaves alone\<close>

lemma Map_get_None: "\<not> Map_has k m \<Longrightarrow> Map_get k m = None"
  by (simp add: Map_has_def Map_get_def map_of_eq_None_iff)

lemma new_Operator_eq:
  "new_Operator w =
     (\<lparr>osc = length (oscs w), env = length (gains w)\<rparr>,
      w\<lparr>oscs := oscs w @ [\<lparr>otype = Sine, frequency = \<lparr>pvalue = 440, events = []\<rparr>,
                           started = True, stop_time = None\<rparr>],
        gains := gains w @ [\<lparr>gain = \<lparr>pvalue = 0, events = []\<rparr>\<rparr>],
        conns := conns w @ [(OscOut (length (oscs w)), GainIn (length (gains w)))]\<rparr>)"
  by (simp add: new_Operator_def createOscillator_def createGain_def upd_gain_def
      set_value_def connect_def upd_osc_def)

lemma new_Operators_4:
  "new_Operators 4 w =
     ([\<lparr>osc = length (oscs w), env = length (gains w)\<rparr>,
       \<lparr>osc = length (oscs w) + 1, env = length (gains w) + 1\<rparr>,
       \<lparr>osc = length (oscs w) + 2, env = length (gains w) + 2\<rparr>,
       \<lparr>osc = length (oscs w) + 3, env = length (gains w) + 3\<rparr>],
      w\<lparr>oscs := oscs w @ replicate 4 \<lparr>otype = Sine, frequency = \<lparr>pvalue = 440, events = []\<rparr>,
                           started = True, stop_time = None\<rparr>,
        gains := gains w @ replicate 4 \<lparr>gain = \<lparr>pvalue = 0, events = []\<rparr>\<rparr>,
        conns := conns w @
          [(OscOut (length (oscs w)), GainIn (length (gains w))),
           (OscOut (length (oscs w) + 1), GainIn (length (gains w) + 1)),
           (OscOut (length (oscs w) + 2), GainIn (length (gains w) + 2)),
           (OscOut (length (oscs w) + 3), GainIn (length (gains w) + 3))]\<rparr>)"
  by (simp add: eval_nat_numeral new_Operator_eq)

lemma new_Operators_frame [simp]:
  "patch (snd (new_Operators k w)) = patch w"
  "activeNotes (snd (new_Operators k w)) = activeNotes w"
  "resume_calls (snd (new_Operators k w)) = resume_calls w"
  "masterGain (snd (new_Operators k w)) = masterGain w"
  "currentTime (snd (new_Operators k w)) = currentTime w"
  "state (snd (new_Operators k w)) = state w"
  "length (fst (new_Operators k w)) = k"
  by (induction k arbitrary: w; simp add: new_Operator_eq split_beta)+

lemma upd_gain_frame [simp]:
  "patch (upd_gain g f w) = patch w" "activeNotes (upd_gain g f w) = activeNotes w"
  "conns (upd_gain g f w) = conns w" "oscs (upd_gain g f w) = oscs w"
  "masterGain (upd_gain g f w) = masterGain w" "currentTime (upd_gain g f w) = currentTime w"
  "length (gains (upd_gain g f w)) = length (gains w)"
  "resume_calls (upd_gain g f w) = resume_calls w" "state (upd_gain g f w) = state w"
  by (simp_all add: upd_gain_def)

lemma upd_osc_frame [simp]:
  "patch (upd_osc g f w) = patch w" "activeNotes (upd_osc g f w) = activeNotes w"
  "conns (upd_osc g f w) = conns w" "gains (upd_osc g f w) = gains w"
  "masterGain (upd_osc g f w) = masterGain w" "currentTime (upd_osc g f w) = currentTime w"
  "length (oscs (upd_osc g f w)) = length (oscs w)"
  "resume_calls (upd_osc g f w) = resume_calls w" "state (upd_osc g f w) = state w"
  by (simp_all add: upd_osc_def)

text \<open>What a sequence of statements keeps, when each of them keeps it.\<close>

lemma andThen_keeps:
  assumes "P (snd r) = P w0" and "\<And>w. P (snd (f w)) = P w"
  shows "P (snd (andThen r f)) = P w0"
proof (cases r)
  case (Pair c w)
  then show ?thesis
    using assms by (cases c) (simp_all add: andThen_def)
qed

lemma gain_call_frame [simp]:
  "patch (snd (gain_call g m w)) = patch w"
  "activeNotes (snd (gain_call g m w)) = activeNotes w"
  "conns (snd (gain_call g m w)) = conns w"
  "masterGain (snd (gain_call g m w)) = masterGain w"
  "currentTime (snd (gain_call g m w)) = currentTime w"
  "resume_calls (snd (gain_call g m w)) = resume_calls w"
  "state (snd (gain_call g m w)) = state w"
  "length (gains (snd (gain_call g m w))) = length (gains w)"
  "length (oscs (snd (gain_call g m w))) = length (oscs w)"
  "oscs (snd (gain_call g m w)) = oscs w"
  by (simp_all add: gain_call_def split: sum.splits)

lemma frequency_call_frame [simp]:
  "patch (snd (frequency_call j m w)) = patch w"
  "activeNotes (snd (frequency_call j m w)) = activeNotes w"
  "conns (snd (frequency_call j m w)) = conns w"
  "masterGain (snd (frequency_call j m w)) = masterGain w"
  "currentTime (snd (frequency_call j m w)) = currentTime w"
  "resume_calls (snd (frequency_call j m w)) = resume_calls w"
  "state (snd (frequency_call j m w)) = state w"
  "length (gains (snd (frequency_call j m w))) = length (gains w)"
  "length (oscs (snd (frequency_call j m w))) = length (oscs w)"
  "gains (snd (frequency_call j m w)) = gains w"
  by (simp_all add: frequency_call_def split: sum.splits)

lemma scheduleEnvelope_keeps:
  assumes "\<And>g m w. P (snd (gain_call g m w)) = P w"
  shows "P (snd (scheduleEnvelope ps t op w)) = P w"
  unfolding scheduleEnvelope_def Let_def
  by (intro andThen_keeps [where P = P] assms)

lemma scheduleEnvelope_frame [simp]:
  "patch (snd (scheduleEnvelope ps t op w)) = patch w"
  "activeNotes (snd (scheduleEnvelope ps t op w)) = activeNotes w"
  "conns (snd (scheduleEnvelope ps t op w)) = conns w"
  "masterGain (snd (scheduleEnvelope ps t op w)) = masterGain w"
  "currentTime (snd (scheduleEnvelope ps t op w)) = currentTime w"
  "resume_calls (snd (scheduleEnvelope ps t op w)) = resume_calls w"
  "state (snd (scheduleEnvelope ps t op w)) = state w"
  "length (gains (snd (scheduleEnvelope ps t op w))) = length (gains w)"
  "length (oscs (snd (scheduleEnvelope ps t op w))) = length (oscs w)"
  "oscs (snd (scheduleEnvelope ps t op w)) = oscs w"
  by (rule scheduleEnvelope_keeps, simp)+

lemma triggerRelease_keeps:
  assumes "\<And>g m w. P (snd (gain_call g m w)) = P w"
    and "\<And>w j os. P (w\<lparr>oscs := (oscs w)[j := os]\<rparr>) = P w"
  shows "P (snd (triggerRelease ps op w)) = P w"
  unfolding triggerRelease_def Let_def
  by (intro andThen_keeps [where P = P] assms(1)) (simp add: assms(2) split: sum.splits)

lemma triggerRelease_frame [simp]:
  "patch (snd (triggerRelease ps op w)) = patch w"
  "activeNotes (snd (triggerRelease ps op w)) = activeNotes w"
  "conns (snd (triggerRelease ps op w)) = conns w"
  "masterGain (snd (triggerRelease ps op w)) = masterGain w"
  "currentTime (snd (triggerRelease ps op w)) = currentTime w"
  "resume_calls (snd (triggerRelease ps op w)) = resume_calls w"
  "state (snd (triggerRelease ps op w)) = state w"
  "length (gains (snd (triggerRelease ps op w))) = length (gains w)"
  "length (oscs (snd (triggerRelease ps op w))) = length (oscs w)"
  by (rule triggerRelease_keeps, simp, simp)+

text \<open>What a loop of callbacks keeps, when every callback keeps it.\<close>

lemma forEach_keeps:
  assumes "\<And>x i w. P (snd (f x i w)) = P w"
  shows "P (snd (forEach f i xs w)) = P w"
proof (induction xs arbitrary: i w)
  case Nil
  then show ?case by simp
next
  case (Cons x xs)
  show ?case
  proof (cases "f x i w")
    case (Pair c w')
    have "P w' = P w" using assms [of x i w] Pair by simp
    then show ?thesis using Pair Cons.IH [of "i + 1" w']
      by (cases c) simp_all
  qed
qed

lemma start_operator_keeps:
  assumes "\<And>g m w. P (snd (gain_call g m w)) = P w"
    and "\<And>j m w. P (snd (frequency_call j m w)) = P w"
    and "\<And>j f w. P (upd_osc j f w) = P w"
  shows "P (snd (start_operator b ps op i w)) = P w"
proof (cases "array_get ps i")
  case None
  then show ?thesis by (simp add: start_operator_def)
next
  case (Some params)
  show ?thesis
  proof (cases "on params")
    case False
    then show ?thesis using Some by (simp add: start_operator_def)
  next
    case True
    have "P (snd (andThen
        (frequency_call (osc op)
           (\<lambda>ct. setValueAtTime ct
              (b * ratio params * (1 + real_of_int (detune params) / 1000))
              (currentTime (upd_osc (osc op) (\<lambda>os. os\<lparr>otype := waveform params\<rparr>) w)))
           (upd_osc (osc op) (\<lambda>os. os\<lparr>otype := waveform params\<rparr>) w))
        (\<lambda>w2. scheduleEnvelope params None op w2))) =
      P (upd_osc (osc op) (\<lambda>os. os\<lparr>otype := waveform params\<rparr>) w)"
      by (intro andThen_keeps [where P = P] assms(2) scheduleEnvelope_keeps assms(1))
    then show ?thesis
      using Some True by (simp add: start_operator_def Let_def assms(3))
  qed
qed

lemma start_operator_frame [simp]:
  "patch (snd (start_operator b ps op i w)) = patch w"
  "activeNotes (snd (start_operator b ps op i w)) = activeNotes w"
  "conns (snd (start_operator b ps op i w)) = conns w"
  "masterGain (snd (start_operator b ps op i w)) = masterGain w"
  "currentTime (snd (start_operator b ps op i w)) = currentTime w"
  "resume_calls (snd (start_operator b ps op i w)) = resume_calls w"
  "state (snd (start_operator b ps op i w)) = state w"
  "length (gains (snd (start_operator b ps op i w))) = length (gains w)"
  "length (oscs (snd (start_operator b ps op i w))) = length (oscs w)"
  by (rule start_operator_keeps, simp, simp, simp)+

lemma release_operator_keeps:
  assumes "\<And>g m w. P (snd (gain_call g m w)) = P w"
    and "\<And>w j os. P (w\<lparr>oscs := (oscs w)[j := os]\<rparr>) = P w"
  shows "P (snd (release_operator op i w)) = P w"
  using triggerRelease_keeps [where P = P, OF assms]
  by (simp add: release_operator_def split: option.splits)

lemma release_operator_frame [simp]:
  "patch (snd (release_operator op i w)) = patch w"
  "activeNotes (snd (release_operator op i w)) = activeNotes w"
  "conns (snd (release_operator op i w)) = conns w"
  "masterGain (snd (release_operator op i w)) = masterGain w"
  "currentTime (snd (release_operator op i w)) = currentTime w"
  "resume_calls (snd (release_operator op i w)) = resume_calls w"
  "state (snd (release_operator op i w)) = state w"
  "length (gains (snd (release_operator op i w))) = length (gains w)"
  "length (oscs (snd (release_operator op i w))) = length (oscs w)"
  by (rule release_operator_keeps, simp, simp)+

lemma forEach_start_frame [simp]:
  "patch (snd (forEach (start_operator b ps) i ops w)) = patch w"
  "activeNotes (snd (forEach (start_operator b ps) i ops w)) = activeNotes w"
  "conns (snd (forEach (start_operator b ps) i ops w)) = conns w"
  "masterGain (snd (forEach (start_operator b ps) i ops w)) = masterGain w"
  "currentTime (snd (forEach (start_operator b ps) i ops w)) = currentTime w"
  "length (gains (snd (forEach (start_operator b ps) i ops w))) = length (gains w)"
  "length (oscs (snd (forEach (start_operator b ps) i ops w))) = length (oscs w)"
  "resume_calls (snd (forEach (start_operator b ps) i ops w)) = resume_calls w"
  "state (snd (forEach (start_operator b ps) i ops w)) = state w"
  by (rule forEach_keeps, simp)+

lemma forEach_release_frame [simp]:
  "patch (snd (forEach release_operator i ops w)) = patch w"
  "activeNotes (snd (forEach release_operator i ops w)) = activeNotes w"
  "conns (snd (forEach release_operator i ops w)) = conns w"
  "masterGain (snd (forEach release_operator i ops w)) = masterGain w"
  "currentTime (snd (forEach release_operator i ops w)) = currentTime w"
  "length (gains (snd (forEach release_operator i ops w))) = length (gains w)"
  "length (oscs (snd (forEach release_operator i ops w))) = length (oscs w)"
  "resume_calls (snd (forEach release_operator i ops w)) = resume_calls w"
  "state (snd (forEach release_operator i ops w)) = state w"
  by (rule forEach_keeps, simp)+

lemma connectModulator_frame [simp]:
  "patch (connectModulator ps ops m c w) = patch w"
  "activeNotes (connectModulator ps ops m c w) = activeNotes w"
  "oscs (connectModulator ps ops m c w) = oscs w"
  "masterGain (connectModulator ps ops m c w) = masterGain w"
  "currentTime (connectModulator ps ops m c w) = currentTime w"
  "resume_calls (connectModulator ps ops m c w) = resume_calls w"
  "state (connectModulator ps ops m c w) = state w"
  by (simp_all add: connectModulator_def createGain_def connect_def Let_def)

lemma connectCarrier_frame [simp]:
  "patch (connectCarrier ps ops c w) = patch w"
  "activeNotes (connectCarrier ps ops c w) = activeNotes w"
  "oscs (connectCarrier ps ops c w) = oscs w"
  "masterGain (connectCarrier ps ops c w) = masterGain w"
  "currentTime (connectCarrier ps ops c w) = currentTime w"
  "resume_calls (connectCarrier ps ops c w) = resume_calls w"
  "state (connectCarrier ps ops c w) = state w"
  by (simp_all add: connectCarrier_def createGain_def connect_def Let_def)

lemma route_frame [simp]:
  "patch (route a ps ops w) = patch w"
  "activeNotes (route a ps ops w) = activeNotes w"
  "oscs (route a ps ops w) = oscs w"
  "masterGain (route a ps ops w) = masterGain w"
  "currentTime (route a ps ops w) = currentTime w"
  "resume_calls (route a ps ops w) = resume_calls w"
  "state (route a ps ops w) = state w"
  by (simp_all add: route_def Let_def)

subsection \<open>The registry\<close>

lemma map_fst_Map_set:
  "map fst (Map_set k v m) = (if k \<in> set (map fst m) then map fst m else map fst m @ [k])"
  by (induction m) (fastforce simp: image_iff)+

lemma Map_has_Map_set [simp]: "Map_has k (Map_set k' v m) = (k = k' \<or> Map_has k m)"
  by (auto simp: Map_has_def map_fst_Map_set simp del: set_map)

lemma Map_get_Map_set [simp]: "Map_get k (Map_set k v m) = Some v"
  by (induction m) (auto simp: Map_get_def)

lemma distinct_Map_set: "distinct (map fst m) \<Longrightarrow> distinct (map fst (Map_set k v m))"
  by (simp add: map_fst_Map_set del: set_map)

lemma distinct_Map_delete: "distinct (map fst m) \<Longrightarrow> distinct (map fst (Map_delete k m))"
  by (simp add: Map_delete_def distinct_map_filter)

lemma count_key:
  "distinct (map fst m) \<Longrightarrow>
   length (filter (\<lambda>kv. fst kv = n) m) = (if Map_has n m then 1 else 0)"
proof (induction m)
  case Nil
  then show ?case by (simp add: Map_has_def)
next
  case (Cons a m)
  then show ?case by (cases a) (auto simp: Map_has_def)
qed

subsection \<open>Completions and the two loops\<close>

lemma completion_case:
  "(case r of (Normal, w') \<Rightarrow> g w' | (Throw e, w') \<Rightarrow> (Throw e, w')) =
     (if fst r = Normal then g (snd r) else r)"
  by (cases r; cases "fst r") auto

lemma forEach_Cons:
  "forEach f i (x # xs) w =
     (if fst (f x i w) = Normal then forEach f (i + 1) xs (snd (f x i w)) else f x i w)"
  by (simp add: completion_case)

subsection \<open>What a loop does to the node of one element\<close>



lemma forEach_Normal:
  assumes ok: "\<And>x i w. I w \<Longrightarrow> i < n \<Longrightarrow> fst (f x i w) = Normal"
    and inv: "\<And>x i w. I w \<Longrightarrow> I (snd (f x i w))"
    and "i + length xs \<le> n" and "I w"
  shows "fst (forEach f i xs w) = Normal"
  using assms(3,4)
proof (induction xs arbitrary: i w)
  case Nil
  then show ?case by simp
next
  case (Cons x xs)
  then have "i < n" and "(i + 1) + length xs \<le> n" and "I (snd (f x i w))"
    by (auto simp: inv)
  then show ?case
    using Cons.IH [of "i + 1" "snd (f x i w)"] Cons.prems(2)
    by (simp add: forEach_Cons ok del: forEach.simps)
qed

subsection \<open>The methods of an operator, when the times are in order\<close>

lemma insert_event_last:
  "\<forall>x \<in> set xs. ev_time x < ev_time e \<or> (ev_time x = ev_time e \<and> \<not> same_kind x e) \<Longrightarrow>
   insert_event e xs = xs @ [e]"
  by (induction xs) auto

lemma scheduleEnvelope_ok:
  assumes "envelope_times_ok (currentTime w) params"
  shows "scheduleEnvelope params None op w =
           (Normal, upd_gain (env op) (envelope_param params (currentTime w)) w)"
proof (cases "env op < length (gains w)")
  case True
  then show ?thesis
    using assms
    by (simp add: scheduleEnvelope_def andThen_def gain_call_def upd_gain_def Let_def
        cancelScheduledValues_def setValueAtTime_def linearRampToValueAtTime_def
        envelope_param_def envelope_times_ok_def)
next
  case False
  then show ?thesis
    using assms
    by (simp add: scheduleEnvelope_def andThen_def gain_call_def upd_gain_def Let_def
        cancelScheduledValues_def setValueAtTime_def linearRampToValueAtTime_def
        envelope_times_ok_def list_update_beyond)
qed

lemma triggerRelease_ok:
  assumes "release_time_ok (currentTime w) params"
  shows "fst (triggerRelease params op w) = Normal"
    and "gains (snd (triggerRelease params op w)) =
           (gains w)[env op := (gains w ! env op)
              \<lparr>gain := release_param params (currentTime w) (gain (gains w ! env op))\<rparr>]"
proof -
  show "fst (triggerRelease params op w) = Normal"
    using assms
    by (simp add: triggerRelease_def andThen_def gain_call_def Let_def
        cancelScheduledValues_def setValueAtTime_def linearRampToValueAtTime_def
        release_time_ok_def)
  show "gains (snd (triggerRelease params op w)) =
           (gains w)[env op := (gains w ! env op)
              \<lparr>gain := release_param params (currentTime w) (gain (gains w ! env op))\<rparr>]"
  proof (cases "env op < length (gains w)")
    case True
    then show ?thesis
      using assms
      by (simp add: triggerRelease_def andThen_def gain_call_def upd_gain_def Let_def
          cancelScheduledValues_def setValueAtTime_def linearRampToValueAtTime_def
          release_param_def release_time_ok_def split: sum.splits)
  next
    case False
    then show ?thesis
      using assms
      by (simp add: triggerRelease_def andThen_def gain_call_def upd_gain_def Let_def
          cancelScheduledValues_def setValueAtTime_def linearRampToValueAtTime_def
          release_time_ok_def list_update_beyond split: sum.splits)
  qed
qed

lemma start_operator_off:
  assumes "i < length ps" and "\<not> on (ps ! i)"
  shows "start_operator b ps op i w = (Normal, w)"
  using assms by (simp add: start_operator_def array_get_def)

lemma start_operator_on:
  assumes "i < length ps" and "on (ps ! i)" and "envelope_times_ok (currentTime w) (ps ! i)"
  shows "start_operator b ps op i w =
           (Normal,
            upd_gain (env op) (envelope_param (ps ! i) (currentTime w))
              (upd_osc (osc op)
                 (\<lambda>os. os\<lparr>otype := waveform (ps ! i),
                    frequency := (frequency os)\<lparr>events :=
                      insert_event
                        (SetValue (b * ratio (ps ! i) * (1 + real_of_int (detune (ps ! i)) / 1000))
                           (currentTime w))
                        (events (frequency os))\<rparr>\<rparr>) w))"
proof -
  have t: "0 \<le> currentTime w" using assms(3) by (simp add: envelope_times_ok_def)
  show ?thesis
  proof (cases "osc op < length (oscs w)")
    case True
    then show ?thesis
      using assms t
      by (simp add: start_operator_def array_get_def Let_def andThen_def frequency_call_def
          setValueAtTime_def scheduleEnvelope_ok upd_osc_def)
  next
    case False
    then show ?thesis
      using assms t
      by (simp add: start_operator_def array_get_def Let_def andThen_def frequency_call_def
          setValueAtTime_def scheduleEnvelope_ok upd_osc_def list_update_beyond)
  qed
qed

lemma start_operator_ok:
  assumes "i < length ps" and "on (ps ! i) \<longrightarrow> envelope_times_ok (currentTime w) (ps ! i)"
  shows "fst (start_operator b ps op i w) = Normal"
    and "oscs (snd (start_operator b ps op i w)) =
           (oscs w)[osc op := start_osc b ps i w (oscs w ! osc op)]"
    and "gains (snd (start_operator b ps op i w)) =
           (gains w)[env op := start_env ps i w (gains w ! env op)]"
proof -
  show "fst (start_operator b ps op i w) = Normal"
    using assms by (cases "on (ps ! i)") (simp_all add: start_operator_on start_operator_off)
  show "oscs (snd (start_operator b ps op i w)) =
           (oscs w)[osc op := start_osc b ps i w (oscs w ! osc op)]"
    using assms
    by (cases "on (ps ! i)")
       (simp_all add: start_operator_on start_operator_off start_osc_def param_on_def
          upd_osc_def upd_gain_def)
  show "gains (snd (start_operator b ps op i w)) =
           (gains w)[env op := start_env ps i w (gains w ! env op)]"
    using assms
    by (cases "on (ps ! i)")
       (simp_all add: start_operator_on start_operator_off start_env_def param_on_def
          upd_osc_def upd_gain_def)
qed


lemma startable_nth:
  assumes "startable w p" and "i < 4"
  shows "i < length (operators p)"
    and "on (operators p ! i) \<longrightarrow> envelope_times_ok (currentTime w) (operators p ! i)"
  using assms by (simp_all add: startable_def list_all_length)


lemma startable_frame:
  "currentTime w' = currentTime w \<Longrightarrow> startable w' p = startable w p"
  by (simp add: startable_def)

text \<open>The two loops over the four operators of a voice.\<close>

lemma forEach_start_Normal:
  assumes "startable w p" and "i + length ops \<le> 4"
  shows "fst (forEach (start_operator b (operators p)) i ops w) = Normal"
  using assms(2)
  by (intro forEach_Normal [where n = 4 and I = "\<lambda>w'. currentTime w' = currentTime w"])
     (use startable_nth [OF assms(1)] in \<open>simp_all add: start_operator_ok\<close>)





subsection \<open>The two methods of the synth\<close>

lemma on_resume_frame [simp]:
  "patch (on_resume w) = patch w" "activeNotes (on_resume w) = activeNotes w"
  "conns (on_resume w) = conns w" "oscs (on_resume w) = oscs w" "gains (on_resume w) = gains w"
  "masterGain (on_resume w) = masterGain w" "currentTime (on_resume w) = currentTime w"
  "state (on_resume w) = state w"
  by (simp_all add: on_resume_def resume_def)

lemma noteOn_alt:
  "noteOn note w =
     (if Map_has note (activeNotes w) then (Normal, on_resume w)
      else case patch w of
        None \<Rightarrow> (Throw TypeError, snd (new_Operators 4 (on_resume w)))
      | Some p \<Rightarrow>
          (let r = forEach (start_operator (baseFreq note) (operators p)) 0
                     (fst (new_Operators 4 (on_resume w))) (snd (new_Operators 4 (on_resume w)))
           in if fst r = Normal
              then (Normal,
                    (route (algorithm p) (operators p) (fst (new_Operators 4 (on_resume w)))
                       (snd r))
                    \<lparr>activeNotes :=
                       Map_set note (fst (new_Operators 4 (on_resume w))) (activeNotes w)\<rparr>)
              else r))"
  unfolding noteOn_def on_resume_def [symmetric] completion_case
  by (simp add: Let_def split_beta split: option.splits)

lemma noteOn_live:
  "Map_has n (activeNotes w) \<Longrightarrow> noteOn n w = (Normal, on_resume w)"
  by (simp add: noteOn_alt)

lemma noteOn_fresh:
  assumes "patch w = Some p" and "startable w p"
    and "\<not> Map_has n (activeNotes w)"
  shows "noteOn n w =
     (Normal,
      (route (algorithm p) (operators p) (fst (new_Operators 4 (on_resume w)))
         (snd (forEach (start_operator (baseFreq n) (operators p)) 0
                 (fst (new_Operators 4 (on_resume w))) (snd (new_Operators 4 (on_resume w))))))
      \<lparr>activeNotes := Map_set n (fst (new_Operators 4 (on_resume w))) (activeNotes w)\<rparr>)"
proof -
  have "fst (forEach (start_operator (baseFreq n) (operators p)) 0
          (fst (new_Operators 4 (on_resume w))) (snd (new_Operators 4 (on_resume w)))) = Normal"
    by (rule forEach_start_Normal [where w = "snd (new_Operators 4 (on_resume w))" and p = p])
       (use assms(2) in \<open>simp_all add: startable_def\<close>)
  then show ?thesis
    using assms by (simp add: noteOn_alt)
qed

lemma noteOn_activeNotes:
  "activeNotes (snd (noteOn n w)) = activeNotes w \<or>
   (\<exists>ops. \<not> Map_has n (activeNotes w) \<and>
      activeNotes (snd (noteOn n w)) = Map_set n ops (activeNotes w))"
  by (auto simp add: noteOn_alt Let_def split: option.splits)

lemma noteOn_Normal_has:
  "fst (noteOn n w) = Normal \<Longrightarrow> Map_has n (activeNotes (snd (noteOn n w)))"
  by (auto simp add: noteOn_alt Let_def split: option.splits if_splits)

lemma noteOff_activeNotes:
  "activeNotes (snd (noteOff n w)) = activeNotes w \<or>
   activeNotes (snd (noteOff n w)) = Map_delete n (activeNotes w)"
  by (auto simp add: noteOff_def completion_case split: option.splits)

lemma step_distinct:
  "distinct (map fst (activeNotes w)) \<Longrightarrow> distinct (map fst (activeNotes (step c w)))"
proof (cases c)
  case (NoteOn n)
  assume "distinct (map fst (activeNotes w))"
  then show ?thesis
    using NoteOn noteOn_activeNotes [of n w] by (auto simp: distinct_Map_set)
next
  case (NoteOff n)
  assume "distinct (map fst (activeNotes w))"
  then show ?thesis
    using NoteOff noteOff_activeNotes [of n w] by (auto simp: distinct_Map_delete)
next
  case (SetPatch p)
  assume "distinct (map fst (activeNotes w))"
  then show ?thesis using SetPatch by (simp add: setPatch_def)
qed

lemma run_distinct:
  "distinct (map fst (activeNotes w)) \<Longrightarrow> distinct (map fst (activeNotes (run cs w)))"
  by (induction cs arbitrary: w) (simp_all add: step_distinct)

lemma noteOn_frame [simp]:
  "patch (snd (noteOn n w)) = patch w"
  "masterGain (snd (noteOn n w)) = masterGain w"
  "currentTime (snd (noteOn n w)) = currentTime w"
  "state (snd (noteOn n w)) = state w"
  by (simp_all add: noteOn_alt Let_def split: option.splits)

lemma noteOn_Normal:
  "patch w = Some p \<Longrightarrow> startable w p \<Longrightarrow> fst (noteOn n w) = Normal"
  by (cases "Map_has n (activeNotes w)") (simp_all add: noteOn_live noteOn_fresh)

lemma startable_initialPatch: "0 \<le> currentTime w \<Longrightarrow> startable w initialPatch"
  by (simp add: startable_def initialPatch_def envelope_times_ok_def)

lemma releasable_initialPatch: "0 \<le> currentTime w \<Longrightarrow> releasable w initialPatch"
  by (simp add: releasable_def initialPatch_def release_time_ok_def)

lemma initAudio_simps [simp]:
  "patch initAudio = Some initialPatch" "activeNotes initAudio = []"
  "length (operators initialPatch) = 4"
  by (simp_all add: initAudio_def setPatch_def new_FMSynth_def new_AudioContext_def
      createGain_def upd_gain_def connect_def initialPatch_def)

subsection \<open>Patch import\<close>

lemma import_check_True:
  assumes "import_check v = Inr True"
  shows "\<exists>a ops. get_prop v ''algorithm'' = Inr (Some a) \<and>
           get_prop v ''operators'' = Inr (Some ops) \<and>
           get_prop ops ''length'' = Inr (Some (JNumber 4))"
proof -
  obtain a where a: "get_prop v ''algorithm'' = Inr a" and ta: "truthy a"
    using assms by (auto simp: import_check_def split: sum.splits if_splits)
  obtain a' where a': "a = Some a'" using ta by (cases a) auto
  obtain ops where o: "get_prop v ''operators'' = Inr (Some ops)"
    using assms a ta by (auto simp: import_check_def split: sum.splits if_splits option.splits)
  have "get_prop ops ''length'' = Inr (Some (JNumber 4))"
    using assms a ta o by (auto simp: import_check_def split: sum.splits if_splits)
  then show ?thesis using a a' o by blast
qed

subsection \<open>Routing\<close>





lemma fst_new_Operators_on_resume [simp]:
  "fst (new_Operators 4 (on_resume w)) = fst (new_Operators 4 w)"
  by (simp add: new_Operators_4)



lemma new_Operators_lengths [simp]:
  "length (gains (snd (new_Operators 4 w))) = length (gains w) + 4"
  "length (oscs (snd (new_Operators 4 w))) = length (oscs w) + 4"
  by (simp_all add: new_Operators_4)







lemma synth_world:
  "new_FMSynth new_AudioContext =
     \<lparr>state = Suspended, currentTime = 0, resume_calls = 0, oscs = [],
      gains = [\<lparr>gain = \<lparr>pvalue = 0.5, events = []\<rparr>\<rparr>], conns = [(GainOut 0, Destination)],
      activeNotes = [], masterGain = 0, patch = None\<rparr>"
  by (simp add: new_FMSynth_def new_AudioContext_def createGain_def upd_gain_def connect_def
      set_value_def)

lemma initAudio_world:
  "initAudio =
     \<lparr>state = Suspended, currentTime = 0, resume_calls = 0, oscs = [],
      gains = [\<lparr>gain = \<lparr>pvalue = 0.5, events = []\<rparr>\<rparr>], conns = [(GainOut 0, Destination)],
      activeNotes = [], masterGain = 0, patch = Some initialPatch\<rparr>"
  by (simp add: initAudio_def synth_world setPatch_def)


subsection \<open>Oscillators and envelopes of a voice\<close>

lemma new_Operators_distinct [simp]:
  "distinct (map osc (fst (new_Operators 4 w)))" "distinct (map env (fst (new_Operators 4 w)))"
  by (simp_all add: new_Operators_4)






lemma release_param_events:
  assumes "0 \<le> release params"
  shows "events (release_param params now g) =
           filter (\<lambda>e. ev_time e < now) (events g) @
           [SetValue (pvalue g) now, LinearRamp 0 (now + release params)]"
proof -
  let ?kept = "filter (\<lambda>e. ev_time e < now) (events g)"
  have 1: "insert_event (SetValue (pvalue g) now) ?kept = ?kept @ [SetValue (pvalue g) now]"
    by (rule insert_event_last) simp
  have 2: "insert_event (LinearRamp 0 (now + release params)) (?kept @ [SetValue (pvalue g) now]) =
      (?kept @ [SetValue (pvalue g) now]) @ [LinearRamp 0 (now + release params)]"
    using assms by (intro insert_event_last) auto
  have 3: "max (now + release params) now = now + release params"
    using assms by simp
  show ?thesis
    by (simp add: release_param_def 1 2 3)
qed

lemma release_param_events_clamped:
  "events (release_param params now g) =
     filter (\<lambda>e. ev_time e < now) (events g) @
     [SetValue (pvalue g) now, LinearRamp 0 (max (now + release params) now)]"
proof -
  let ?kept = "filter (\<lambda>e. ev_time e < now) (events g)"
  let ?end = "max (now + release params) now"
  have 1: "insert_event (SetValue (pvalue g) now) ?kept = ?kept @ [SetValue (pvalue g) now]"
    by (rule insert_event_last) simp
  have 2: "insert_event (LinearRamp 0 ?end) (?kept @ [SetValue (pvalue g) now]) =
      (?kept @ [SetValue (pvalue g) now]) @ [LinearRamp 0 ?end]"
    by (intro insert_event_last) auto
  show ?thesis
    by (simp add: release_param_def 1 2)
qed

lemma envelope_param_fresh:
  assumes "0 \<le> attack params" and "0 < decay params"
  shows "envelope_param params now \<lparr>pvalue = v, events = []\<rparr> =
           \<lparr>pvalue = v,
            events = [SetValue v now, LinearRamp 1 (now + attack params),
                      LinearRamp (sustain params) (now + attack params + decay params)]\<rparr>"
  using assms
  by (simp add: envelope_param_def max_def)

subsection \<open>Rendering\<close>

lemma timeline_head:
  "ev_time e \<le> t \<Longrightarrow> timeline v0 t0 (e # es) t = timeline v1 t1 (e # es) t"
  by simp

lemma render_quantum_frame [simp]:
  "patch (render_quantum q w) = patch w" "activeNotes (render_quantum q w) = activeNotes w"
  "conns (render_quantum q w) = conns w" "masterGain (render_quantum q w) = masterGain w"
  "length (oscs (render_quantum q w)) = length (oscs w)"
  "length (gains (render_quantum q w)) = length (gains w)"
  "state (render_quantum q w) = state w" "resume_calls (render_quantum q w) = resume_calls w"
  by (simp_all add: render_quantum_def)

lemma render_quanta_frame [simp]:
  "patch (render_quanta k q w) = patch w" "activeNotes (render_quanta k q w) = activeNotes w"
  "conns (render_quanta k q w) = conns w" "masterGain (render_quanta k q w) = masterGain w"
  "length (oscs (render_quanta k q w)) = length (oscs w)"
  "length (gains (render_quanta k q w)) = length (gains w)"
  "state (render_quanta k q w) = state w" "resume_calls (render_quanta k q w) = resume_calls w"
  by (induction k; simp)+

lemma context_resumed_frame [simp]:
  "patch (context_resumed w) = patch w" "activeNotes (context_resumed w) = activeNotes w"
  "conns (context_resumed w) = conns w" "masterGain (context_resumed w) = masterGain w"
  "oscs (context_resumed w) = oscs w" "gains (context_resumed w) = gains w"
  "currentTime (context_resumed w) = currentTime w"
  "resume_calls (context_resumed w) = resume_calls w"
  by (simp_all add: context_resumed_def)

lemma render_quanta_time:
  "state w = Running \<Longrightarrow> currentTime (render_quanta k q w) = currentTime w + real k * q"
  by (induction k) (simp_all add: render_quantum_def algebra_simps)

lemma render_quantum_events:
  "g < length (gains w) \<Longrightarrow>
     events (gain (gains (render_quantum q w) ! g)) = events (gain (gains w ! g))"
  by (simp add: render_quantum_def render_param_def)

lemma render_quanta_events:
  "g < length (gains w) \<Longrightarrow>
     events (gain (gains (render_quanta k q w) ! g)) = events (gain (gains w ! g))"
  by (induction k) (simp_all add: render_quantum_events)

text \<open>
  The value a script reads after one more quantum: what the timeline gives at the start
  of that quantum.
\<close>

lemma render_quanta_value:
  assumes "state w = Running" and "g < length (gains w)"
  shows "pvalue (gain (gains (render_quanta (Suc k) q w) ! g)) =
           timeline (pvalue (gain (gains (render_quanta k q w) ! g)))
             (currentTime w + real k * q) (events (gain (gains w ! g)))
             (currentTime w + real k * q)"
  using assms
  by (simp add: render_quantum_def render_param_def render_quanta_time render_quanta_events)

lemma render_quanta_gain:
  assumes "state w = Running" and "g < length (gains w)"
    and "events (gain (gains w ! g)) = e # es" and "ev_time e \<le> currentTime w + real k * q"
  shows "gain (gains (render_quanta (Suc k) q w) ! g) =
           \<lparr>pvalue = timeline 0 0 (e # es) (currentTime w + real k * q), events = e # es\<rparr>"
proof -
  have "pvalue (gain (gains (render_quanta (Suc k) q w) ! g)) =
      timeline 0 0 (e # es) (currentTime w + real k * q)"
    using assms(3,4) unfolding render_quanta_value [OF assms(1,2)] by simp
  moreover have "events (gain (gains (render_quanta (Suc k) q w) ! g)) = e # es"
    using assms(2,3) by (simp only: render_quanta_events)
  ultimately show ?thesis by simp
qed

declare render_quanta.simps [simp del]

subsection \<open>Releasing a voice\<close>

lemma Map_has_Map_delete [simp]: "\<not> Map_has k (Map_delete k m)"
  by (auto simp: Map_has_def Map_delete_def)

lemma setPatch_frame [simp]:
  "patch (setPatch p w) = Some p" "activeNotes (setPatch p w) = activeNotes w"
  "conns (setPatch p w) = conns w" "masterGain (setPatch p w) = masterGain w"
  "oscs (setPatch p w) = oscs w" "gains (setPatch p w) = gains w"
  "currentTime (setPatch p w) = currentTime w"
  by (simp_all add: setPatch_def)









lemma initAudio_facts:
  "currentTime initAudio = 0" "length (gains initAudio) = 1" "length (oscs initAudio) = 0"
  "masterGain initAudio = 0" "conns initAudio = [(GainOut 0, Destination)]"
  "state initAudio = Suspended"
  by (simp_all add: initAudio_world)


section \<open>The claims\<close>

text \<open>
  C2. Whatever calls the page makes, the registry never holds two voices for one note
  number. When \<^verbatim>\<open>noteOn(n)\<close> has returned, a second \<^verbatim>\<open>noteOn(n)\<close> returns too and
  changes nothing but the count of resume requests (it still asks a suspended context
  to resume): no node, no connection, no registry entry is added, and the registry
  holds exactly one voice for \<open>n\<close>.
\<close>

theorem one_voice_per_note:
  assumes "distinct (map fst (activeNotes w))"
  shows "length (filter (\<lambda>kv. fst kv = n) (activeNotes (run cs w))) \<le> 1 \<and>
         (\<forall>w1. noteOn n (run cs w) = (Normal, w1) \<longrightarrow>
            fst (noteOn n w1) = Normal \<and>
            snd (noteOn n w1) = w1\<lparr>resume_calls := resume_calls (snd (noteOn n w1))\<rparr> \<and>
            length (filter (\<lambda>kv. fst kv = n) (activeNotes (snd (noteOn n w1)))) = 1)"
proof (intro conjI allI impI)
  have d: "distinct (map fst (activeNotes (run cs w)))"
    using assms by (rule run_distinct)
  then show "length (filter (\<lambda>kv. fst kv = n) (activeNotes (run cs w))) \<le> 1"
    by (simp add: count_key)
  fix w1
  assume a: "noteOn n (run cs w) = (Normal, w1)"
  then have has: "Map_has n (activeNotes w1)"
    using noteOn_Normal_has [of n "run cs w"] by simp
  have "distinct (map fst (activeNotes (step (NoteOn n) (run cs w))))"
    using d by (rule step_distinct)
  then have d1: "distinct (map fst (activeNotes w1))" using a by simp
  have again: "noteOn n w1 = (Normal, on_resume w1)"
    using has by (rule noteOn_live)
  show "fst (noteOn n w1) = Normal" using again by simp
  show "snd (noteOn n w1) = w1\<lparr>resume_calls := resume_calls (snd (noteOn n w1))\<rparr>"
    using again by (simp add: on_resume_def resume_def)
  show "length (filter (\<lambda>kv. fst kv = n) (activeNotes (snd (noteOn n w1)))) = 1"
    using again d1 has by (simp add: count_key)
qed

theorem one_voice_per_note_witness:
  "distinct (map fst (activeNotes initAudio)) \<and>
   length (filter (\<lambda>kv. fst kv = 69) (activeNotes (run [NoteOn 60] initAudio))) \<le> 1 \<and>
   noteOn 69 (run [NoteOn 60] initAudio) =
     (Normal, snd (noteOn 69 (run [NoteOn 60] initAudio))) \<and>
   fst (noteOn 69 (snd (noteOn 69 (run [NoteOn 60] initAudio)))) = Normal \<and>
   length (filter (\<lambda>kv. fst kv = 69)
     (activeNotes (snd (noteOn 69 (snd (noteOn 69 (run [NoteOn 60] initAudio))))))) = 1"
proof -
  have d: "distinct (map fst (activeNotes initAudio))" by simp
  have "fst (noteOn 69 (run [NoteOn 60] initAudio)) = Normal"
    by (rule noteOn_Normal [of _ initialPatch])
       (simp_all add: startable_initialPatch initAudio_facts)
  then have e: "noteOn 69 (run [NoteOn 60] initAudio) =
      (Normal, snd (noteOn 69 (run [NoteOn 60] initAudio)))"
    by (simp add: prod_eq_iff)
  show ?thesis
    using d e one_voice_per_note [OF d, of 69 "[NoteOn 60]"] by blast
qed

text \<open>
  C8. \<^verbatim>\<open>noteOff(n)\<close> for a note with no voice in the registry returns normally and
  leaves the whole state as it was: no envelope, oscillator, connection or registry
  entry changes.
\<close>

theorem noteOff_unknown_note:
  "\<not> Map_has note (activeNotes w) \<Longrightarrow> noteOff note w = (Normal, w)"
  by (simp add: noteOff_def Map_get_None)

theorem noteOff_unknown_note_witness:
  "\<not> Map_has 60 (activeNotes initAudio) \<and> noteOff 60 initAudio = (Normal, initAudio)"
  using noteOff_unknown_note [of 60 initAudio] by (simp add: Map_has_def)

text \<open>
  C10. \<^verbatim>\<open>noteOn\<close> on a synth whose patch is still \<^verbatim>\<open>null\<close>, for a note with no voice:
  the guard only asks the context to resume, the four operators are created, and
  reading the fields of the null patch raises a TypeError. Nothing is registered.
\<close>

theorem noteOn_null_patch_raises:
  assumes "patch w = None" and "\<not> Map_has note (activeNotes w)"
  shows "noteOn note w = (Throw TypeError, snd (new_Operators 4 (resume w))) \<and>
         resume_calls (snd (noteOn note w)) = resume_calls w + 1 \<and>
         \<not> Map_has note (activeNotes (snd (noteOn note w)))"
  using assms
  by (simp add: noteOn_def resume_def split_beta)

theorem noteOn_null_patch_raises_witness:
  "patch (new_FMSynth new_AudioContext) = None \<and>
   \<not> Map_has 69 (activeNotes (new_FMSynth new_AudioContext)) \<and>
   fst (noteOn 69 (new_FMSynth new_AudioContext)) = Throw TypeError \<and>
   resume_calls (snd (noteOn 69 (new_FMSynth new_AudioContext))) = 1"
proof -
  have p: "patch (new_FMSynth new_AudioContext) = None"
    by (simp add: new_FMSynth_def createGain_def connect_def)
  have h: "\<not> Map_has 69 (activeNotes (new_FMSynth new_AudioContext))"
    by (simp add: new_FMSynth_def createGain_def connect_def new_AudioContext_def Map_has_def)
  have r: "resume_calls (new_FMSynth new_AudioContext) = 0"
    by (simp add: new_FMSynth_def createGain_def connect_def new_AudioContext_def)
  show ?thesis
    using p h r noteOn_null_patch_raises [OF p h] by (simp add: resume_def)
qed

text \<open>
  C7. Import takes the parsed value only when reading \<^verbatim>\<open>algorithm\<close> and
  \<^verbatim>\<open>operators\<close> gives a value (the property is present) and the \<^verbatim>\<open>length\<close> of
  \<^verbatim>\<open>operators\<close> is exactly 4; the taken value replaces the patch as a whole. In every
  other case, among them text that does not parse and the value
  \<^verbatim>\<open>{"algorithm":1}\<close>, one alert is shown and the rest of the state, the patch in
  it, stays as it was.
\<close>

theorem import_all_or_nothing:
  "(import_check v = Inr True \<longrightarrow>
      (\<exists>a ops. get_prop v ''algorithm'' = Inr (Some a) \<and>
         get_prop v ''operators'' = Inr (Some ops) \<and>
         get_prop ops ''length'' = Inr (Some (JNumber 4)))) \<and>
   handleImport parse (Some text) st =
     (case parse text of
        None \<Rightarrow> st\<lparr>alerts := alerts st @ [LoadError]\<rparr>
      | Some u \<Rightarrow>
          if import_check u = Inr True then st\<lparr>patch_state := u\<rparr>
          else st\<lparr>alerts := alerts st @
                 [if import_check u = Inr False then InvalidFormat else LoadError]\<rparr>) \<and>
   import_check (JObject [(''algorithm'', JNumber 1)]) = Inr False"
proof (intro conjI impI)
  assume "import_check v = Inr True"
  then show "\<exists>a ops. get_prop v ''algorithm'' = Inr (Some a) \<and>
         get_prop v ''operators'' = Inr (Some ops) \<and>
         get_prop ops ''length'' = Inr (Some (JNumber 4))"
    by (rule import_check_True)
next
  show "handleImport parse (Some text) st =
     (case parse text of
        None \<Rightarrow> st\<lparr>alerts := alerts st @ [LoadError]\<rparr>
      | Some u \<Rightarrow>
          if import_check u = Inr True then st\<lparr>patch_state := u\<rparr>
          else st\<lparr>alerts := alerts st @
                 [if import_check u = Inr False then InvalidFormat else LoadError]\<rparr>)"
    by (auto simp: handleImport_def onload_def split: option.splits sum.splits bool.splits)
next
  show "import_check (JObject [(''algorithm'', JNumber 1)]) = Inr False"
    by (simp add: import_check_def)
qed

theorem import_all_or_nothing_witness:
  "import_check (JObject [(''algorithm'', JNumber 2),
       (''operators'', JArray [JNull, JNull, JNull, JNull])]) = Inr True \<and>
   get_prop (JObject [(''algorithm'', JNumber 2),
       (''operators'', JArray [JNull, JNull, JNull, JNull])]) ''operators''
     = Inr (Some (JArray [JNull, JNull, JNull, JNull])) \<and>
   handleImport (\<lambda>_. Some (JObject [(''algorithm'', JNumber 1)])) (Some ''algorithm only'')
       \<lparr>patch_state = JObject [(''algorithm'', JNumber 6)], alerts = []\<rparr>
     = \<lparr>patch_state = JObject [(''algorithm'', JNumber 6)], alerts = [InvalidFormat]\<rparr> \<and>
   handleImport (\<lambda>_. None) (Some ''no json'')
       \<lparr>patch_state = JObject [(''algorithm'', JNumber 6)], alerts = []\<rparr>
     = \<lparr>patch_state = JObject [(''algorithm'', JNumber 6)], alerts = [LoadError]\<rparr>"
proof -
  let ?v = "JObject [(''algorithm'', JNumber 2),
       (''operators'', JArray [JNull, JNull, JNull, JNull])]"
  let ?st = "\<lparr>patch_state = JObject [(''algorithm'', JNumber 6)], alerts = []\<rparr>"
  have c: "import_check ?v = Inr True" by (simp add: import_check_def)
  have g: "get_prop ?v ''operators'' = Inr (Some (JArray [JNull, JNull, JNull, JNull]))"
    by simp
  have r: "import_check (JObject [(''algorithm'', JNumber 1)]) = Inr False"
    using import_all_or_nothing [of ?v "\<lambda>_. None" "''no json''" ?st] by blast
  show ?thesis
    using c g r
      import_all_or_nothing [of ?v "\<lambda>_. Some (JObject [(''algorithm'', JNumber 1)])"
        "''algorithm only''" ?st]
      import_all_or_nothing [of ?v "\<lambda>_. None" "''no json''" ?st]
    by simp
qed









text \<open>
  C9. The claim as stated fails in its second half. The value \<^verbatim>\<open>triggerRelease\<close>
  captures is \<^verbatim>\<open>gain.value\<close>, which the rendering refreshes once a quantum with the
  value of the start of that quantum. An envelope with an attack of 0.01 seconds is
  started from gain 0 on a running context and released after one quantum (128 frames
  at 48000 frames a second): the attack has reached 4/15 by then, and the release
  ramps down from 0.
\<close>

theorem release_mid_attack_counterexample:
  "currentTime
     (render_quanta 1 (1 / 375)
        (snd (scheduleEnvelope (operators initialPatch ! 0) None \<lparr>osc = 0, env = 1\<rparr>
           (snd (new_Operator (context_resumed (resume (new_FMSynth new_AudioContext)))))))) =
     1 / 375 \<and>
   1 / 375 < attack (operators initialPatch ! 0) \<and>
   timeline 0 0
     (events (gain (gains
        (render_quanta 1 (1 / 375)
           (snd (scheduleEnvelope (operators initialPatch ! 0) None \<lparr>osc = 0, env = 1\<rparr>
              (snd (new_Operator (context_resumed (resume (new_FMSynth new_AudioContext)))))))) !
        1)))
     (1 / 375) = 4 / 15 \<and>
   events (gain (gains (snd
     (triggerRelease (operators initialPatch ! 0) \<lparr>osc = 0, env = 1\<rparr>
        (render_quanta 1 (1 / 375)
           (snd (scheduleEnvelope (operators initialPatch ! 0) None \<lparr>osc = 0, env = 1\<rparr>
              (snd (new_Operator
                 (context_resumed (resume (new_FMSynth new_AudioContext)))))))))) ! 1)) =
     [SetValue 0 0, SetValue 0 (1 / 375), LinearRamp 0 (1 / 375 + 1 / 2)]"
proof -
  let ?start = "snd (new_Operator (context_resumed (resume (new_FMSynth new_AudioContext))))"
  let ?op = "\<lparr>osc = 0, env = Suc 0\<rparr>"
  let ?ap = "operators initialPatch ! 0"
  let ?sched = "snd (scheduleEnvelope ?ap None ?op ?start)"
  let ?w = "render_quanta (Suc 0) (1 / 375) ?sched"
  have w0: "?start = \<lparr>state = Running, currentTime = 0, resume_calls = 1,
      oscs = [\<lparr>otype = Sine, frequency = \<lparr>pvalue = 440, events = []\<rparr>, started = True,
               stop_time = None\<rparr>],
      gains = [\<lparr>gain = \<lparr>pvalue = 0.5, events = []\<rparr>\<rparr>, \<lparr>gain = \<lparr>pvalue = 0, events = []\<rparr>\<rparr>],
      conns = [(GainOut 0, Destination), (OscOut 0, GainIn 1)],
      activeNotes = [], masterGain = 0, patch = None\<rparr>"
    by (simp add: new_Operator_eq synth_world context_resumed_def resume_def)
  have ap: "attack ?ap = 0.01" "decay ?ap = 0.3" "release ?ap = 0.5" "sustain ?ap = 0.8"
    by (simp_all add: initialPatch_def)
  have ok: "envelope_times_ok (currentTime ?start) ?ap"
    by (simp add: envelope_times_ok_def w0 ap)
  have sched: "?sched = upd_gain (Suc 0) (envelope_param ?ap 0) ?start"
    using scheduleEnvelope_ok [OF ok, of ?op] by (simp add: w0)
  have g: "gain (gains ?sched ! Suc 0) =
      \<lparr>pvalue = 0, events = [SetValue 0 0, LinearRamp 1 0.01, LinearRamp 0.8 0.31]\<rparr>"
    unfolding sched by (simp add: w0 upd_gain_def envelope_param_fresh ap)
  have run: "state ?sched = Running" and t: "currentTime ?sched = 0"
    and l: "Suc 0 < length (gains ?sched)"
    unfolding sched by (simp_all add: w0)
  have ev: "events (gain (gains ?sched ! Suc 0)) =
      [SetValue 0 0, LinearRamp 1 0.01, LinearRamp 0.8 0.31]"
    unfolding g by simp
  have gw: "gain (gains ?w ! Suc 0) =
      \<lparr>pvalue = 0, events = [SetValue 0 0, LinearRamp 1 0.01, LinearRamp 0.8 0.31]\<rparr>"
    using render_quanta_gain [OF run l ev, of 0 "1 / 375"] t by simp
  have tw: "currentTime ?w = 1 / 375"
    using render_quanta_time [OF run, of "Suc 0" "1 / 375"] t by simp
  have rel: "release_time_ok (currentTime ?w) ?ap"
    unfolding tw by (simp add: release_time_ok_def ap)
  have lw: "Suc 0 < length (gains ?w)" using l by simp
  have "events (gain (gains (snd (triggerRelease ?ap ?op ?w)) ! Suc 0)) =
      events (release_param ?ap (1 / 375) (gain (gains ?w ! Suc 0)))"
    using triggerRelease_ok(2) [OF rel, of ?op] lw by (simp add: tw)
  also have "\<dots> = [SetValue 0 0, SetValue 0 (1 / 375), LinearRamp 0 (1 / 375 + 1 / 2)]"
    by (simp add: release_param_events ap gw)
  finally have r: "events (gain (gains (snd (triggerRelease ?ap ?op ?w)) ! Suc 0)) =
      [SetValue 0 0, SetValue 0 (1 / 375), LinearRamp 0 (1 / 375 + 1 / 2)]" .
  have reached: "timeline 0 0 (events (gain (gains ?w ! Suc 0))) (1 / 375) = 4 / 15"
    by (simp add: gw)
  show ?thesis
    using tw reached r by (simp add: ap)
qed

text \<open>
  C9, as amended. \<^verbatim>\<open>triggerRelease\<close>, when neither the current time nor the current
  time plus the release time is negative, returns normally; it leaves of the
  envelope's schedule the breakpoints before the current time, and puts after them the
  value \<^verbatim>\<open>gain.value\<close> holds at the current time and a linear ramp to 0 ending
  \<open>release\<close> seconds later (at the current time, if that is earlier). \<^verbatim>\<open>gain.value\<close>
  is the value of the start of the last quantum rendered: for an envelope started from
  gain 0 on a running context and released inside the attack after \<open>m + 1\<close> quanta of
  duration \<open>q\<close>, the attack has reached \<open>(m + 1) * q / attack\<close>, the release ramps
  down from \<open>m * q / attack\<close>, and the ramps to 1 and to the sustain level are gone.
\<close>

theorem release_from_gain_value:
  assumes "env op < length (gains w)" and "release_time_ok (currentTime w) rp"
  shows "fst (triggerRelease rp op w) = Normal \<and>
         events (gain (gains (snd (triggerRelease rp op w)) ! env op)) =
           filter (\<lambda>e. ev_time e < currentTime w) (events (gain (gains w ! env op))) @
           [SetValue (pvalue (gain (gains w ! env op))) (currentTime w),
            LinearRamp 0 (max (currentTime w + release rp) (currentTime w))] \<and>
         (state w0 = Running \<and> 0 \<le> currentTime w0 \<and>
          gain (gains w0 ! env op) = \<lparr>pvalue = 0, events = []\<rparr> \<and>
          0 < decay ap \<and> 0 < q \<and> real (Suc m) * q < attack ap \<and>
          w = render_quanta (Suc m) q (snd (scheduleEnvelope ap None op w0)) \<longrightarrow>
            currentTime w = currentTime w0 + real (Suc m) * q \<and>
            timeline 0 0 (events (gain (gains w ! env op))) (currentTime w) =
              real (Suc m) * q / attack ap \<and>
            pvalue (gain (gains w ! env op)) = real m * q / attack ap \<and>
            events (gain (gains (snd (triggerRelease rp op w)) ! env op)) =
              [SetValue 0 (currentTime w0),
               SetValue (real m * q / attack ap) (currentTime w),
               LinearRamp 0 (max (currentTime w + release rp) (currentTime w))])"
proof (intro conjI impI)
  show "fst (triggerRelease rp op w) = Normal"
    using assms(2) by (rule triggerRelease_ok)
  show general: "events (gain (gains (snd (triggerRelease rp op w)) ! env op)) =
           filter (\<lambda>e. ev_time e < currentTime w) (events (gain (gains w ! env op))) @
           [SetValue (pvalue (gain (gains w ! env op))) (currentTime w),
            LinearRamp 0 (max (currentTime w + release rp) (currentTime w))]"
    using assms(1) triggerRelease_ok(2) [OF assms(2), of op]
    by (simp add: release_param_events_clamped)
  assume a: "state w0 = Running \<and> 0 \<le> currentTime w0 \<and>
          gain (gains w0 ! env op) = \<lparr>pvalue = 0, events = []\<rparr> \<and>
          0 < decay ap \<and> 0 < q \<and> real (Suc m) * q < attack ap \<and>
          w = render_quanta (Suc m) q (snd (scheduleEnvelope ap None op w0))"
  let ?sched = "snd (scheduleEnvelope ap None op w0)"
  let ?begin = "currentTime w0"
  let ?es = "[SetValue 0 ?begin, LinearRamp 1 (?begin + attack ap),
              LinearRamp (sustain ap) (?begin + attack ap + decay ap)]"
  have q: "0 < q" and mq: "0 \<le> real m * q" and lt: "real m * q < attack ap"
    and lt': "q + real m * q < attack ap"
    using a by (simp_all add: algebra_simps)
  have att: "0 < attack ap" using mq lt by simp
  have d: "0 < decay ap" using a by simp
  have pos: "0 < q + real m * q" using q mq by (rule add_pos_nonneg)
  have len0: "env op < length (gains w0)"
    using assms(1) a by simp
  have ok: "envelope_times_ok ?begin ap"
    using a att by (simp add: envelope_times_ok_def)
  have sched: "?sched = upd_gain (env op) (envelope_param ap ?begin) w0"
    using scheduleEnvelope_ok [OF ok, of op] by simp
  have ev: "events (gain (gains ?sched ! env op)) = ?es"
    unfolding sched using len0 a att by (simp add: upd_gain_def envelope_param_fresh)
  have run: "state ?sched = Running" and t: "currentTime ?sched = ?begin"
    and l: "env op < length (gains ?sched)"
    using a len0 by simp_all
  have w: "w = render_quanta (Suc m) q ?sched" using a by simp
  have g: "gain (gains w ! env op) = \<lparr>pvalue = real m * q / attack ap, events = ?es\<rparr>"
    unfolding w using render_quanta_gain [OF run l ev, of m q] mq lt by (simp add: t)
  show now: "currentTime w = ?begin + real (Suc m) * q"
    unfolding w using render_quanta_time [OF run, of "Suc m" q] by (simp add: t)
  show "timeline 0 0 (events (gain (gains w ! env op))) (currentTime w) =
          real (Suc m) * q / attack ap"
    using q mq lt' by (simp add: g now algebra_simps)
  show "pvalue (gain (gains w ! env op)) = real m * q / attack ap"
    by (simp add: g)
  show "events (gain (gains (snd (triggerRelease rp op w)) ! env op)) =
              [SetValue 0 ?begin, SetValue (real m * q / attack ap) (currentTime w),
               LinearRamp 0 (max (currentTime w + release rp) (currentTime w))]"
  proof -
    have "?begin < currentTime w" and "\<not> ?begin + attack ap < currentTime w"
      and "\<not> ?begin + attack ap + decay ap < currentTime w"
      using pos lt' d by (simp_all add: now algebra_simps)
    then show ?thesis by (simp add: general g)
  qed
qed

theorem release_from_gain_value_witness:
  "release_time_ok (2 / 375) (operators initialPatch ! 0) \<and>
   events (gain (gains (snd
     (triggerRelease (operators initialPatch ! 0) \<lparr>osc = 0, env = 1\<rparr>
        (render_quanta 2 (1 / 375)
           (snd (scheduleEnvelope (operators initialPatch ! 0) None \<lparr>osc = 0, env = 1\<rparr>
              (snd (new_Operator
                 (context_resumed (resume (new_FMSynth new_AudioContext)))))))))) ! 1)) =
     [SetValue 0 0, SetValue (4 / 15) (2 / 375), LinearRamp 0 (2 / 375 + 1 / 2)]"
proof -
  let ?start = "snd (new_Operator (context_resumed (resume (new_FMSynth new_AudioContext))))"
  let ?op = "\<lparr>osc = 0, env = Suc 0\<rparr>"
  let ?ap = "operators initialPatch ! 0"
  let ?w = "render_quanta (Suc (Suc 0)) (1 / 375) (snd (scheduleEnvelope ?ap None ?op ?start))"
  have w0: "?start = \<lparr>state = Running, currentTime = 0, resume_calls = 1,
      oscs = [\<lparr>otype = Sine, frequency = \<lparr>pvalue = 440, events = []\<rparr>, started = True,
               stop_time = None\<rparr>],
      gains = [\<lparr>gain = \<lparr>pvalue = 0.5, events = []\<rparr>\<rparr>, \<lparr>gain = \<lparr>pvalue = 0, events = []\<rparr>\<rparr>],
      conns = [(GainOut 0, Destination), (OscOut 0, GainIn 1)],
      activeNotes = [], masterGain = 0, patch = None\<rparr>"
    by (simp add: new_Operator_eq synth_world context_resumed_def resume_def)
  have ap: "attack ?ap = 0.01" "decay ?ap = 0.3" "release ?ap = 0.5"
    by (simp_all add: initialPatch_def)
  have two: "(2::nat) = Suc (Suc 0)" by simp
  have s0: "currentTime ?start = 0" by (simp add: w0)
  have run: "state (snd (scheduleEnvelope ?ap None ?op ?start)) = Running"
    and t0: "currentTime (snd (scheduleEnvelope ?ap None ?op ?start)) = 0"
    by (simp_all add: w0)
  have tw: "currentTime ?w = 2 / 375"
    using render_quanta_time [OF run, of "Suc (Suc 0)" "1 / 375"] t0 by simp
  have h1: "env ?op < length (gains ?w)"
    by (simp add: w0)
  have h2: "release_time_ok (currentTime ?w) ?ap"
    unfolding tw by (simp add: release_time_ok_def ap)
  have h3: "state ?start = Running \<and> 0 \<le> currentTime ?start \<and>
          gain (gains ?start ! env ?op) = \<lparr>pvalue = 0, events = []\<rparr> \<and>
          0 < decay ?ap \<and> (0::real) < 1 / 375 \<and> real (Suc (Suc 0)) * (1 / 375) < attack ?ap \<and>
          ?w = render_quanta (Suc (Suc 0)) (1 / 375) (snd (scheduleEnvelope ?ap None ?op ?start))"
    by (simp add: w0 ap)
  have "events (gain (gains (snd (triggerRelease ?ap ?op ?w)) ! env ?op)) =
      [SetValue 0 (currentTime ?start),
       SetValue (real (Suc 0) * (1 / 375) / attack ?ap) (currentTime ?w),
       LinearRamp 0 (max (currentTime ?w + release ?ap) (currentTime ?w))]"
    using release_from_gain_value [OF h1 h2, of ?start ?ap "1 / 375" "Suc 0"] h3 by blast
  then have "events (gain (gains (snd (triggerRelease ?ap ?op ?w)) ! Suc 0)) =
      [SetValue 0 0, SetValue (4 / 15) (2 / 375), LinearRamp 0 (2 / 375 + 1 / 2)]"
    by (simp add: tw ap s0)
  moreover have "release_time_ok (2 / 375) ?ap"
    using h2 by (simp add: tw)
  ultimately show ?thesis
    unfolding two by simp
qed




end
